theory Spec2Isabelle
  imports Complex_Main
begin

section \<open>Blue Ridge Hot Tubs: product-mix solver and sensitivity sweeps\<close>

text \<open>
  A shallow embedding of \<^verbatim>\<open>lp_model.py\<close>, \<^verbatim>\<open>sensitivity.py\<close> and
  \<^verbatim>\<open>run_analysis.py\<close>.

  Conventions of the embedding.
  \<^item> Python \<^verbatim>\<open>int\<close> is \<^typ>\<open>int\<close>. Python \<^verbatim>\<open>float\<close> is \<^typ>\<open>real\<close>:
    arithmetic is exact, the rounding of IEEE doubles (and NaN, infinities) is not
    part of the model. Every statement below about a tolerance is a statement about
    exact arithmetic.
  \<^item> The CBC solver behind \<^verbatim>\<open>pulp\<close> is not part of the repository. It enters as a
    parameter: a function from the envelope to what the three reads after
    \<^verbatim>\<open>model.solve\<close> return (\<^verbatim>\<open>x1.value()\<close>, \<^verbatim>\<open>x2.value()\<close>,
    \<^verbatim>\<open>pulp.value(model.objective)\<close>), each of them a float or \<^verbatim>\<open>None\<close>.
  \<^item> Exceptions of the Python code are values of \<open>py_error\<close>; the printed report of
    a function that only prints is the value the model returns.
\<close>

subsection \<open>lp\_model.py\<close>

record Resources =
  pumps :: int
  labor_hours :: int
  tubing_feet :: int

text \<open>The dataclass defaults: \<^verbatim>\<open>Resources()\<close>.\<close>

definition default_Resources :: Resources where
  "default_Resources = \<lparr>pumps = 200, labor_hours = 1566, tubing_feet = 2880\<rparr>"

record Solution =
  x_aqua :: real
  x_hydro :: real
  profit :: real
  used :: "string \<rightharpoonup> real"
  slack :: "string \<rightharpoonup> real"

text \<open>What the solver leaves behind for the three reads of lines 91 to 93.\<close>

record solver_values =
  x1_value :: "real option"
  x2_value :: "real option"
  objective_value :: "real option"

type_synonym lp_solver = "Resources \<Rightarrow> solver_values"

text \<open>
  \<^verbatim>\<open>v or 0.0\<close>: \<^verbatim>\<open>None\<close> and the falsy float zero both give \<open>0.0\<close>, every other
  float gives itself.
\<close>

definition or_zero :: "real option \<Rightarrow> real" where
  "or_zero v = (case v of None \<Rightarrow> 0 | Some x \<Rightarrow> (if x = 0 then 0 else x))"

text \<open>Reading a key of a dict that was just built with that key.\<close>

definition item :: "(string \<rightharpoonup> real) \<Rightarrow> string \<Rightarrow> real" where
  "item d k = the (d k)"

definition solve_hot_tubs :: "lp_solver \<Rightarrow> Resources \<Rightarrow> Solution" where
  "solve_hot_tubs solver res =
     (let out = solver res;
          xa = or_zero (x1_value out);
          xh = or_zero (x2_value out);
          profit = or_zero (objective_value out);
          used = [''pumps'' \<mapsto> xa + xh,
                  ''labor'' \<mapsto> 9 * xa + 6 * xh,
                  ''tubing'' \<mapsto> 12 * xa + 16 * xh];
          slack = [''pumps'' \<mapsto> real_of_int (pumps res) - item used ''pumps'',
                   ''labor'' \<mapsto> real_of_int (labor_hours res) - item used ''labor'',
                   ''tubing'' \<mapsto> real_of_int (tubing_feet res) - item used ''tubing'']
      in \<lparr>x_aqua = xa, x_hydro = xh, profit = profit, used = used, slack = slack\<rparr>)"

text \<open>
  The linear program that lines 73 to 85 hand to the solver: maximise
  \<open>350 x1 + 300 x2\<close> over \<open>x1, x2 \<ge> 0\<close> under the three resource constraints.
\<close>

definition objective :: "real \<Rightarrow> real \<Rightarrow> real" where
  "objective x1 x2 = 350 * x1 + 300 * x2"

definition feasible :: "Resources \<Rightarrow> real \<Rightarrow> real \<Rightarrow> bool" where
  "feasible res x1 x2 \<longleftrightarrow>
     0 \<le> x1 \<and> 0 \<le> x2 \<and>
     x1 + x2 \<le> real_of_int (pumps res) \<and>
     9 * x1 + 6 * x2 \<le> real_of_int (labor_hours res) \<and>
     12 * x1 + 16 * x2 \<le> real_of_int (tubing_feet res)"

text \<open>
  The solver returned an exact optimum of that program: values for both variables,
  feasible, the objective evaluated at them, and no feasible point does better.
\<close>

definition exact_optimum :: "Resources \<Rightarrow> solver_values \<Rightarrow> bool" where
  "exact_optimum res out \<longleftrightarrow>
     (\<exists>x1 x2. x1_value out = Some x1 \<and> x2_value out = Some x2 \<and>
        objective_value out = Some (objective x1 x2) \<and>
        feasible res x1 x2 \<and>
        (\<forall>y1 y2. feasible res y1 y2 \<longrightarrow> objective y1 y2 \<le> objective x1 x2))"

text \<open>The envelope's quantity under the key the two dicts use for it.\<close>

definition envelope :: "Resources \<Rightarrow> string \<rightharpoonup> real" where
  "envelope res = [''pumps'' \<mapsto> real_of_int (pumps res),
                   ''labor'' \<mapsto> real_of_int (labor_hours res),
                   ''tubing'' \<mapsto> real_of_int (tubing_feet res)]"

definition resource_keys :: "string list" where
  "resource_keys = [''pumps'', ''labor'', ''tubing'']"

text \<open>
  Two envelopes that differ by an increase of exactly one of the three quantities.
\<close>

definition one_resource_increased :: "Resources \<Rightarrow> Resources \<Rightarrow> bool" where
  "one_resource_increased a b \<longleftrightarrow>
     (pumps a < pumps b \<and> labor_hours a = labor_hours b \<and> tubing_feet a = tubing_feet b) \<or>
     (pumps a = pumps b \<and> labor_hours a < labor_hours b \<and> tubing_feet a = tubing_feet b) \<or>
     (pumps a = pumps b \<and> labor_hours a = labor_hours b \<and> tubing_feet a < tubing_feet b)"

subsection \<open>sensitivity.py\<close>

datatype py_error = IndexError | ValueError | TypeError

text \<open>The literal \<^verbatim>\<open>1e-6\<close> of every comparison.\<close>

abbreviation tolerance :: real where
  "tolerance \<equiv> 1 / 10 ^ 6"

text \<open>
  \<^verbatim>\<open>round(x, 2)\<close>: the nearest multiple of one hundredth, a tie going to the even
  one.
\<close>

definition round_half_even :: "real \<Rightarrow> int" where
  "round_half_even x =
     (let f = \<lfloor>x\<rfloor>; r = x - real_of_int f
      in if r < 1 / 2 then f
         else if 1 / 2 < r then f + 1
         else if even f then f else f + 1)"

definition round2 :: "real \<Rightarrow> real" where
  "round2 x = real_of_int (round_half_even (x * 100)) / 100"

definition delta_profit :: "real \<Rightarrow> real \<Rightarrow> real" where
  "delta_profit base_profit new_profit = round2 (new_profit - base_profit)"

text \<open>
  Lines 57 to 64 (and 96 to 101), the body of the loop of \<open>q1_more_pumps\<close> and
  \<open>q2_more_labor\<close> after the solve: the state is
  \<open>(last_profit, first_delta, breakpoint_at)\<close>, \<open>v\<close> the loop variable and
  \<open>new_profit\<close> is \<^verbatim>\<open>sol.profit\<close>.
\<close>

fun record_delta ::
  "int \<Rightarrow> real \<Rightarrow> real \<times> real option \<times> int option \<Rightarrow> real \<times> real option \<times> int option"
where
  "record_delta v new_profit (last_profit, first_delta, breakpoint_at) =
     (let d = delta_profit last_profit new_profit
      in case first_delta of
           None \<Rightarrow> (new_profit, Some d, breakpoint_at)
         | Some fd \<Rightarrow>
             if tolerance < \<bar>d - fd\<bar> \<and> breakpoint_at = None
             then (new_profit, first_delta, Some v)
             else (new_profit, first_delta, breakpoint_at))"

text \<open>
  What the two functions print after the loop: the marginal value and either the
  line "Constant marginal value until about \<open>b - 1\<close>; breakpoint near \<open>b\<close>" or the
  line "no breakpoint detected".
\<close>

datatype marginal_report =
  BreakpointNear real int int
  | NoBreakpoint real

text \<open>
  Lines 66 to 70: formatting \<^verbatim>\<open>None\<close> with \<^verbatim>\<open>:,.2f\<close> raises TypeError;
  \<^verbatim>\<open>if breakpoint_at:\<close> is the truth value of an optional int.
\<close>

fun print_marginal :: "real \<times> real option \<times> int option \<Rightarrow> py_error + marginal_report" where
  "print_marginal (last_profit, None, breakpoint_at) = Inl TypeError"
| "print_marginal (last_profit, Some fd, None) = Inr (NoBreakpoint fd)"
| "print_marginal (last_profit, Some fd, Some b) =
     (if b \<noteq> 0 then Inr (BreakpointNear fd (b - 1) b) else Inr (NoBreakpoint fd))"

fun q1_loop ::
  "lp_solver \<Rightarrow> Resources \<Rightarrow> real \<times> real option \<times> int option \<Rightarrow> int list
     \<Rightarrow> real \<times> real option \<times> int option"
where
  "q1_loop solver base_res st [] = st"
| "q1_loop solver base_res st (p # ps) =
     (let res = \<lparr>pumps = p, labor_hours = labor_hours base_res,
                 tubing_feet = tubing_feet base_res\<rparr>;
          sol = solve_hot_tubs solver res
      in q1_loop solver base_res (record_delta p (profit sol) st) ps)"

definition q1_more_pumps :: "lp_solver \<Rightarrow> int \<Rightarrow> py_error + marginal_report" where
  "q1_more_pumps solver max_test =
     (let base_res = default_Resources;
          base_sol = solve_hot_tubs solver base_res;
          base_profit = profit base_sol
      in print_marginal
           (q1_loop solver base_res (base_profit, None, None)
              [pumps base_res + 1 .. max_test]))"



text \<open>
  \<open>q3_more_tubing\<close> prints either "At \<open>t\<close> feet, profit changes by \<open>d\<close>" and returns
  from inside the loop, or, after the loop, that tubing is non-binding.
\<close>

datatype tubing_report =
  BecomesBinding int real
  | NonBinding

fun q3_loop :: "lp_solver \<Rightarrow> Resources \<Rightarrow> real \<Rightarrow> int list \<Rightarrow> tubing_report" where
  "q3_loop solver base_res last_profit [] = NonBinding"
| "q3_loop solver base_res last_profit (t # ts) =
     (let res = \<lparr>pumps = pumps base_res, labor_hours = labor_hours base_res,
                 tubing_feet = t\<rparr>;
          sol = solve_hot_tubs solver res;
          d = delta_profit last_profit (profit sol)
      in if tolerance < \<bar>d\<bar> then BecomesBinding t d
         else q3_loop solver base_res (profit sol) ts)"

definition q3_more_tubing :: "lp_solver \<Rightarrow> int \<Rightarrow> tubing_report" where
  "q3_more_tubing solver increment =
     (let base_res = default_Resources;
          base_sol = solve_hot_tubs solver base_res;
          base_profit = profit base_sol
      in q3_loop solver base_res base_profit
           [tubing_feet base_res + 1 .. tubing_feet base_res + increment])"

subsection \<open>run\_analysis.py\<close>

text \<open>\<^verbatim>\<open>xs[-1]\<close>, \<^verbatim>\<open>xs[i]\<close>, \<^verbatim>\<open>max(profits)\<close> and \<^verbatim>\<open>profits.index(v)\<close>.\<close>

definition py_last :: "'a list \<Rightarrow> py_error + 'a" where
  "py_last xs = (if xs = [] then Inl IndexError else Inr (last xs))"

definition py_nth :: "'a list \<Rightarrow> nat \<Rightarrow> py_error + 'a" where
  "py_nth xs i = (if i < length xs then Inr (xs ! i) else Inl IndexError)"

fun py_max :: "real list \<Rightarrow> py_error + real" where
  "py_max [] = Inl ValueError"
| "py_max (x # xs) = Inr (foldl (\<lambda>m y. if m < y then y else m) x xs)"

fun py_index :: "real list \<Rightarrow> real \<Rightarrow> py_error + nat" where
  "py_index [] v = Inl ValueError"
| "py_index (x # xs) v =
     (if x = v then Inr 0
      else case py_index xs v of Inl e \<Rightarrow> Inl e | Inr i \<Rightarrow> Inr (Suc i))"

text \<open>Line 19: \<^verbatim>\<open>[profits[i+1] - profits[i] for i in range(len(profits)-1)]\<close>.\<close>

definition marginal_deltas :: "real list \<Rightarrow> real list" where
  "marginal_deltas profits =
     map (\<lambda>i. profits ! (i + 1) - profits ! i) [0..<length profits - 1]"

text \<open>
  Lines 25 to 28: the loop over \<^verbatim>\<open>enumerate(deltas[1:], start=1)\<close>, with \<open>i\<close> the
  running index; the result is \<^verbatim>\<open>bp\<close>.
\<close>

fun scan_deltas :: "int list \<Rightarrow> real \<Rightarrow> nat \<Rightarrow> real list \<Rightarrow> py_error + int option" where
  "scan_deltas xs first i [] = Inr None"
| "scan_deltas xs first i (d # ds) =
     (if tolerance < \<bar>d - first\<bar>
      then (case py_nth xs i of Inl e \<Rightarrow> Inl e | Inr v \<Rightarrow> Inr (Some v))
      else scan_deltas xs first (Suc i) ds)"

text \<open>Lines 22 to 31.\<close>

definition detect_breakpoint :: "int list \<Rightarrow> real list \<Rightarrow> py_error + int" where
  "detect_breakpoint xs deltas =
     (case deltas of
        [] \<Rightarrow> py_last xs
      | first # rest \<Rightarrow>
          (case scan_deltas xs first 1 rest of
             Inl e \<Rightarrow> Inl e
           | Inr None \<Rightarrow> py_last xs
           | Inr (Some bp) \<Rightarrow> Inr bp))"

text \<open>Lines 34 and 35.\<close>

definition highest_profit :: "int list \<Rightarrow> real list \<Rightarrow> py_error + real \<times> int" where
  "highest_profit xs profits =
     (case py_max profits of
        Inl e \<Rightarrow> Inl e
      | Inr max_profit \<Rightarrow>
          (case py_index profits max_profit of
             Inl e \<Rightarrow> Inl e
           | Inr k \<Rightarrow>
               (case py_nth xs k of
                  Inl e \<Rightarrow> Inl e
                | Inr max_at \<Rightarrow> Inr (max_profit, max_at))))"

text \<open>Lines 22 to 37, shared word for word by the two curve functions.\<close>

definition summarise ::
  "int list \<Rightarrow> real list \<Rightarrow> py_error + int list \<times> real list \<times> int \<times> real \<times> int"
where
  "summarise xs profits =
     (case detect_breakpoint xs (marginal_deltas profits) of
        Inl e \<Rightarrow> Inl e
      | Inr breakpoint_at \<Rightarrow>
          (case highest_profit xs profits of
             Inl e \<Rightarrow> Inl e
           | Inr (max_profit, max_at) \<Rightarrow>
               Inr (xs, profits, breakpoint_at, max_profit, max_at)))"

definition sensitivity_curve_pumps ::
  "lp_solver \<Rightarrow> int \<Rightarrow> int \<Rightarrow> int \<Rightarrow> int
     \<Rightarrow> py_error + int list \<times> real list \<times> int \<times> real \<times> int"
where
  "sensitivity_curve_pumps solver start stop labor tubing =
     (let xs = [start..stop];
          profits = map (\<lambda>p. profit (solve_hot_tubs solver
                      \<lparr>pumps = p, labor_hours = labor, tubing_feet = tubing\<rparr>)) xs
      in summarise xs profits)"

definition sensitivity_curve_labor ::
  "lp_solver \<Rightarrow> int \<Rightarrow> int \<Rightarrow> int \<Rightarrow> int
     \<Rightarrow> py_error + int list \<times> real list \<times> int \<times> real \<times> int"
where
  "sensitivity_curve_labor solver start stop pumps' tubing =
     (let xs = [start..stop];
          profits = map (\<lambda>h. profit (solve_hot_tubs solver
                      \<lparr>pumps = pumps', labor_hours = h, tubing_feet = tubing\<rparr>)) xs
      in summarise xs profits)"

subsection \<open>Vocabulary of the statements\<close>

text \<open>
  The profit of one solve of a sweep, as a function of the swept quantity: what line 16
  of \<^verbatim>\<open>run_analysis.py\<close> appends and what \<^verbatim>\<open>sol.profit\<close> is in the loops of
  \<^verbatim>\<open>sensitivity.py\<close>.
\<close>

definition profit_of_pumps :: "lp_solver \<Rightarrow> int \<Rightarrow> int \<Rightarrow> int \<Rightarrow> real" where
  "profit_of_pumps solver labor tubing p =
     profit (solve_hot_tubs solver \<lparr>pumps = p, labor_hours = labor, tubing_feet = tubing\<rparr>)"

definition profit_of_labor :: "lp_solver \<Rightarrow> int \<Rightarrow> int \<Rightarrow> int \<Rightarrow> real" where
  "profit_of_labor solver pumps' tubing h =
     profit (solve_hot_tubs solver \<lparr>pumps = pumps', labor_hours = h, tubing_feet = tubing\<rparr>)"

definition profit_of_tubing :: "lp_solver \<Rightarrow> int \<Rightarrow> int \<Rightarrow> int \<Rightarrow> real" where
  "profit_of_tubing solver pumps' labor t =
     profit (solve_hot_tubs solver \<lparr>pumps = pumps', labor_hours = labor, tubing_feet = t\<rparr>)"

text \<open>
  The words of the specification for the breakpoint of a series: \<open>delta[i]\<close>, a
  delta index \<open>i \<ge> 1\<close> whose delta deviates from \<open>delta[0]\<close> by more than the
  tolerance, and the breakpoint, which is \<open>xs[i]\<close> at the smallest such index and the
  last tested value when there is none.
\<close>

definition delta :: "real list \<Rightarrow> nat \<Rightarrow> real" where
  "delta profits i = profits ! (i + 1) - profits ! i"

definition deviates :: "real list \<Rightarrow> nat \<Rightarrow> bool" where
  "deviates profits i \<longleftrightarrow>
     1 \<le> i \<and> i + 1 < length profits \<and> tolerance < \<bar>delta profits i - delta profits 0\<bar>"

definition breakpoint_of :: "int list \<Rightarrow> real list \<Rightarrow> int \<Rightarrow> bool" where
  "breakpoint_of xs profits bp \<longleftrightarrow>
     (\<exists>i. deviates profits i \<and> (\<forall>j<i. \<not> deviates profits j) \<and> bp = xs ! i) \<or>
     ((\<forall>i. \<not> deviates profits i) \<and> bp = last xs)"

text \<open>
  The highest profit of a series and where it is first reached.
\<close>

definition highest_of :: "int list \<Rightarrow> real list \<Rightarrow> real \<Rightarrow> int \<Rightarrow> bool" where
  "highest_of xs profits max_profit max_at \<longleftrightarrow>
     max_profit = Max (set profits) \<and>
     (\<exists>k<length profits. profits ! k = max_profit \<and>
        (\<forall>j<k. profits ! j \<noteq> max_profit) \<and> max_at = xs ! k)"

text \<open>
  The delta the loops of \<^verbatim>\<open>sensitivity.py\<close> compare: \<open>delta_profit\<close> of the profit
  at the previous value of the swept quantity and the profit at this one.
\<close>

definition rounded_delta :: "(int \<Rightarrow> real) \<Rightarrow> int \<Rightarrow> real" where
  "rounded_delta P v = delta_profit (P (v - 1)) (P v)"

text \<open>
  The common shape of \<open>q1_loop\<close> and \<open>q2_loop\<close>, over the profit as a function of
  the loop variable.
\<close>

fun scan_profits ::
  "(int \<Rightarrow> real) \<Rightarrow> real \<times> real option \<times> int option \<Rightarrow> int list
     \<Rightarrow> real \<times> real option \<times> int option"
where
  "scan_profits P st [] = st"
| "scan_profits P st (v # vs) = scan_profits P (record_delta v (P v) st) vs"

subsection \<open>Solver behaviours used as concrete inputs\<close>

text \<open>A solver that finds nothing: all three reads give \<^verbatim>\<open>None\<close>.\<close>

definition no_solution :: lp_solver where
  "no_solution res = \<lparr>x1_value = None, x2_value = None, objective_value = None\<rparr>"

text \<open>A solver whose optimum is to produce nothing.\<close>

definition zero_optimum :: lp_solver where
  "zero_optimum res = \<lparr>x1_value = Some 0, x2_value = Some 0, objective_value = Some 0\<rparr>"

text \<open>
  The exact optimum of the program as the number of pumps grows, with labour and
  tubing at their defaults: up to 207 pumps both pumps and labour bind, beyond that
  labour and tubing do.
\<close>

definition pump_sweep_optimum :: lp_solver where
  "pump_sweep_optimum res =
     (let p = real_of_int (pumps res)
      in if pumps res \<le> 207
         then \<lparr>x1_value = Some (522 - 2 * p), x2_value = Some (3 * p - 522),
               objective_value = Some (26100 + 200 * p)\<rparr>
         else \<lparr>x1_value = Some 108, x2_value = Some 99,
               objective_value = Some 67500\<rparr>)"

text \<open>
  A solver whose answers carry noise below half a cent: the optimal plan of the pump
  sweep with \<open>4/300000\<close> more of the second product from 202 pumps on, and again
  from 2881 feet of tubing on, so that the objective gains \<open>0.004\<close> each time.
\<close>

definition cent_noise :: lp_solver where
  "cent_noise res =
     (let p = real_of_int (pumps res);
          noise = (if 202 \<le> pumps res then 1 else 0) + (if 2881 \<le> tubing_feet res then 1 else 0);
          x1 = 522 - 2 * p;
          x2 = 3 * p - 522 + noise * (4 / 300000)
      in \<lparr>x1_value = Some x1, x2_value = Some x2, objective_value = Some (objective x1 x2)\<rparr>)"

text \<open>
  A solver for which more tubing pays: the baseline plan, with a third of a hundredth
  more of the second product from 2883 feet of tubing on, so that the objective gains
  one dollar there.
\<close>

definition tubing_jump :: lp_solver where
  "tubing_jump res =
     (let x1 = 122;
          x2 = 78 + (if 2883 \<le> tubing_feet res then 1 / 300 else 0)
      in \<lparr>x1_value = Some x1, x2_value = Some x2, objective_value = Some (objective x1 x2)\<rparr>)"

section \<open>Properties\<close>

subsection \<open>The solver wrapper\<close>

lemma used_keys:
  "used (solve_hot_tubs solver res) ''pumps'' =
     Some (or_zero (x1_value (solver res)) + or_zero (x2_value (solver res)))"
  "used (solve_hot_tubs solver res) ''labor'' =
     Some (9 * or_zero (x1_value (solver res)) + 6 * or_zero (x2_value (solver res)))"
  "used (solve_hot_tubs solver res) ''tubing'' =
     Some (12 * or_zero (x1_value (solver res)) + 16 * or_zero (x2_value (solver res)))"
  by (simp_all add: solve_hot_tubs_def Let_def)

lemma slack_keys:
  "slack (solve_hot_tubs solver res) ''pumps'' =
     Some (real_of_int (pumps res)
       - (or_zero (x1_value (solver res)) + or_zero (x2_value (solver res))))"
  "slack (solve_hot_tubs solver res) ''labor'' =
     Some (real_of_int (labor_hours res)
       - (9 * or_zero (x1_value (solver res)) + 6 * or_zero (x2_value (solver res))))"
  "slack (solve_hot_tubs solver res) ''tubing'' =
     Some (real_of_int (tubing_feet res)
       - (12 * or_zero (x1_value (solver res)) + 16 * or_zero (x2_value (solver res))))"
  by (simp_all add: solve_hot_tubs_def Let_def item_def)

text \<open>
  Claim C5. For every envelope and every solver result, the solution that
  \<open>solve_hot_tubs\<close> returns has, under each of the three keys pumps, labor and tubing,
  a used amount and a slack whose sum is the envelope's quantity, within \<open>1e-6\<close>
  (in exact arithmetic the two are equal).
\<close>

theorem consumption_slack_identity:
  "list_all (\<lambda>k. \<bar>item (used (solve_hot_tubs solver res)) k
                    + item (slack (solve_hot_tubs solver res)) k
                    - item (envelope res) k\<bar> \<le> 1 / 10 ^ 6)
     resource_keys"
  by (simp add: resource_keys_def item_def used_keys slack_keys envelope_def)

lemma profit_solve: "profit (solve_hot_tubs solver res) = or_zero (objective_value (solver res))"
  and x_aqua_solve: "x_aqua (solve_hot_tubs solver res) = or_zero (x1_value (solver res))"
  and x_hydro_solve: "x_hydro (solve_hot_tubs solver res) = or_zero (x2_value (solver res))"
  by (simp_all add: solve_hot_tubs_def Let_def)

lemma or_zero_Some: "or_zero (Some x) = x" and or_zero_None: "or_zero None = 0"
  by (simp_all add: or_zero_def)

lemma baseline_optimum_unique:
  assumes "feasible default_Resources x1 x2"
    and "\<forall>y1 y2. feasible default_Resources y1 y2 \<longrightarrow> objective y1 y2 \<le> objective x1 x2"
  shows "x1 = 122" and "x2 = 78" and "objective x1 x2 = 66100"
proof -
  have "feasible default_Resources 122 78"
    by (simp add: feasible_def default_Resources_def)
  with assms(2) have lower: "objective 122 78 \<le> objective x1 x2" by blast
  from assms(1) have c: "0 \<le> x1" "0 \<le> x2" "x1 + x2 \<le> 200" "9 * x1 + 6 * x2 \<le> 1566"
    by (simp_all add: feasible_def default_Resources_def)
  from lower have l: "66100 \<le> 350 * x1 + 300 * x2" by (simp add: objective_def)
  from c l have "x1 = 122" by linarith
  moreover from c l have "x2 = 78" by linarith
  ultimately show "x1 = 122" and "x2 = 78" and "objective x1 x2 = 66100"
    by (simp_all add: objective_def)
qed

text \<open>
  Claim C6. For the baseline envelope (200 pumps, 1566 labour hours, 2880 feet of
  tubing), when the solver returns an exact optimum of the program,
  \<open>solve_hot_tubs\<close> returns \<open>x_aqua\<close> within 0.5 of 122, \<open>x_hydro\<close> within 0.5 of 78
  and a profit within 0.5 of 66100.
\<close>

theorem baseline_scenario:
  assumes "exact_optimum default_Resources (solver default_Resources)"
  shows "\<bar>x_aqua (solve_hot_tubs solver default_Resources) - 122\<bar> \<le> 1 / 2 \<and>
         \<bar>x_hydro (solve_hot_tubs solver default_Resources) - 78\<bar> \<le> 1 / 2 \<and>
         \<bar>profit (solve_hot_tubs solver default_Resources) - 66100\<bar> \<le> 1 / 2"
proof -
  from assms obtain x1 x2 where v: "x1_value (solver default_Resources) = Some x1"
      "x2_value (solver default_Resources) = Some x2"
      "objective_value (solver default_Resources) = Some (objective x1 x2)"
    and f: "feasible default_Resources x1 x2"
    and opt: "\<forall>y1 y2. feasible default_Resources y1 y2 \<longrightarrow> objective y1 y2 \<le> objective x1 x2"
    unfolding exact_optimum_def by blast
  from baseline_optimum_unique [OF f opt] v show ?thesis
    by (simp add: profit_solve x_aqua_solve x_hydro_solve or_zero_Some)
qed

lemma pump_sweep_optimum_exact:
  assumes "200 \<le> pumps res" "pumps res \<le> 220" "labor_hours res = 1566" "tubing_feet res = 2880"
  shows "exact_optimum res (pump_sweep_optimum res)"
proof (cases "pumps res \<le> 207")
  case True
  let ?p = "real_of_int (pumps res)"
  from True assms have b: "200 \<le> ?p" "?p \<le> 207" by simp_all
  have feas: "feasible res (522 - 2 * ?p) (3 * ?p - 522)"
    using b assms by (simp add: feasible_def)
  have best: "objective y1 y2 \<le> objective (522 - 2 * ?p) (3 * ?p - 522)"
    if "feasible res y1 y2" for y1 y2
  proof -
    from that assms have "y1 + y2 \<le> ?p" "9 * y1 + 6 * y2 \<le> 1566"
      by (simp_all add: feasible_def)
    then show ?thesis by (simp add: objective_def)
  qed
  show ?thesis
    unfolding exact_optimum_def
    apply (rule exI [of _ "522 - 2 * ?p"], rule exI [of _ "3 * ?p - 522"])
    using True feas best by (simp add: pump_sweep_optimum_def Let_def objective_def)
next
  case False
  let ?p = "real_of_int (pumps res)"
  from False have b: "207 \<le> ?p" by simp
  have feas: "feasible res 108 99"
    using b assms by (simp add: feasible_def)
  have best: "objective y1 y2 \<le> objective 108 99" if "feasible res y1 y2" for y1 y2
  proof -
    from that assms have "9 * y1 + 6 * y2 \<le> 1566" "12 * y1 + 16 * y2 \<le> 2880"
      by (simp_all add: feasible_def)
    then show ?thesis by (simp add: objective_def)
  qed
  show ?thesis
    unfolding exact_optimum_def
    apply (rule exI [of _ "108"], rule exI [of _ "99"])
    using False feas best by (simp add: pump_sweep_optimum_def Let_def objective_def)
qed

lemma feasible_mono:
  assumes "feasible a x1 x2" "pumps a \<le> pumps b" "labor_hours a \<le> labor_hours b"
    "tubing_feet a \<le> tubing_feet b"
  shows "feasible b x1 x2"
proof -
  from assms(2-4) have "real_of_int (pumps a) \<le> real_of_int (pumps b)"
    "real_of_int (labor_hours a) \<le> real_of_int (labor_hours b)"
    "real_of_int (tubing_feet a) \<le> real_of_int (tubing_feet b)" by simp_all
  with assms(1) show ?thesis unfolding feasible_def by linarith
qed

text \<open>
  Claim C8. For two envelopes that differ by an increase of exactly one resource
  quantity, the other two held fixed, the profit \<open>solve_hot_tubs\<close> returns for the
  larger envelope is at least the profit for the smaller one, when the solver returns
  an exact optimum of the program for both.
\<close>

theorem profit_monotone:
  assumes "one_resource_increased a b"
    and "exact_optimum a (solver a)" and "exact_optimum b (solver b)"
  shows "profit (solve_hot_tubs solver a) \<le> profit (solve_hot_tubs solver b)"
proof -
  from assms(2) obtain x1 x2 where a: "objective_value (solver a) = Some (objective x1 x2)"
    "feasible a x1 x2" unfolding exact_optimum_def by blast
  from assms(3) obtain y1 y2 where b: "objective_value (solver b) = Some (objective y1 y2)"
    "\<forall>z1 z2. feasible b z1 z2 \<longrightarrow> objective z1 z2 \<le> objective y1 y2"
    unfolding exact_optimum_def by blast
  from assms(1) have "pumps a \<le> pumps b" "labor_hours a \<le> labor_hours b"
    "tubing_feet a \<le> tubing_feet b" unfolding one_resource_increased_def by auto
  from feasible_mono [OF a(2) this] b(2) have "objective x1 x2 \<le> objective y1 y2" by blast
  with a(1) b(1) show ?thesis by (simp add: profit_solve or_zero_Some)
qed

theorem baseline_scenario_witness:
  "\<bar>x_aqua (solve_hot_tubs pump_sweep_optimum default_Resources) - 122\<bar> \<le> 1 / 2 \<and>
   \<bar>x_hydro (solve_hot_tubs pump_sweep_optimum default_Resources) - 78\<bar> \<le> 1 / 2 \<and>
   \<bar>profit (solve_hot_tubs pump_sweep_optimum default_Resources) - 66100\<bar> \<le> 1 / 2"
proof -
  have "exact_optimum default_Resources (pump_sweep_optimum default_Resources)"
    by (rule pump_sweep_optimum_exact) (simp_all add: default_Resources_def)
  from baseline_scenario [of pump_sweep_optimum, OF this] show ?thesis .
qed

theorem profit_monotone_witness:
  "one_resource_increased default_Resources (default_Resources\<lparr>pumps := 201\<rparr>) \<and>
   profit (solve_hot_tubs pump_sweep_optimum default_Resources)
     \<le> profit (solve_hot_tubs pump_sweep_optimum (default_Resources\<lparr>pumps := 201\<rparr>)) \<and>
   profit (solve_hot_tubs pump_sweep_optimum default_Resources) = 66100 \<and>
   profit (solve_hot_tubs pump_sweep_optimum (default_Resources\<lparr>pumps := 201\<rparr>)) = 66300"
proof -
  have inc: "one_resource_increased default_Resources (default_Resources\<lparr>pumps := 201\<rparr>)"
    by (simp add: one_resource_increased_def default_Resources_def)
  have a: "exact_optimum default_Resources (pump_sweep_optimum default_Resources)"
    by (rule pump_sweep_optimum_exact) (simp_all add: default_Resources_def)
  have b: "exact_optimum (default_Resources\<lparr>pumps := 201\<rparr>)
             (pump_sweep_optimum (default_Resources\<lparr>pumps := 201\<rparr>))"
    by (rule pump_sweep_optimum_exact) (simp_all add: default_Resources_def)
  have "profit (solve_hot_tubs pump_sweep_optimum default_Resources) = 66100"
    "profit (solve_hot_tubs pump_sweep_optimum (default_Resources\<lparr>pumps := 201\<rparr>)) = 66300"
    by (simp_all add: profit_solve pump_sweep_optimum_def default_Resources_def or_zero_Some)
  with inc profit_monotone [of _ _ pump_sweep_optimum, OF inc a b] show ?thesis by simp
qed

text \<open>
  Claim C4 says that a solver that returns no variable and no objective values makes
  \<open>solve_hot_tubs\<close> surface a failure. Lines 91 to 93 turn each missing value into
  \<open>0.0\<close> instead: the result is the plan of zero quantities and zero profit, the
  same solution as for a solver whose optimum is zero.
\<close>

theorem silent_zero_plan_counterexample:
  "solve_hot_tubs no_solution default_Resources =
     \<lparr>x_aqua = 0, x_hydro = 0, profit = 0,
      used = [''pumps'' \<mapsto> 0, ''labor'' \<mapsto> 0, ''tubing'' \<mapsto> 0],
      slack = [''pumps'' \<mapsto> 200, ''labor'' \<mapsto> 1566, ''tubing'' \<mapsto> 2880]\<rparr> \<and>
   solve_hot_tubs no_solution default_Resources =
     solve_hot_tubs zero_optimum default_Resources"
  by (simp add: solve_hot_tubs_def no_solution_def zero_optimum_def default_Resources_def
      or_zero_def item_def Let_def)

text \<open>
  Claim C4, amended. For every envelope, if the solver returns no variable values and
  no objective value, \<open>solve_hot_tubs\<close> returns normally the solution with
  \<open>x_aqua = 0\<close>, \<open>x_hydro = 0\<close>, \<open>profit = 0\<close>, nothing used and the whole envelope
  as slack; no failure reaches the caller.
\<close>

theorem no_values_zero_plan:
  assumes "x1_value (solver res) = None" and "x2_value (solver res) = None"
    and "objective_value (solver res) = None"
  shows "solve_hot_tubs solver res =
     \<lparr>x_aqua = 0, x_hydro = 0, profit = 0,
      used = [''pumps'' \<mapsto> 0, ''labor'' \<mapsto> 0, ''tubing'' \<mapsto> 0],
      slack = envelope res\<rparr>"
  using assms
  by (simp add: solve_hot_tubs_def or_zero_def item_def Let_def envelope_def)

theorem no_values_zero_plan_witness:
  "x_aqua (solve_hot_tubs no_solution \<lparr>pumps = 10, labor_hours = 60, tubing_feet = 120\<rparr>) = 0 \<and>
   x_hydro (solve_hot_tubs no_solution \<lparr>pumps = 10, labor_hours = 60, tubing_feet = 120\<rparr>) = 0 \<and>
   profit (solve_hot_tubs no_solution \<lparr>pumps = 10, labor_hours = 60, tubing_feet = 120\<rparr>) = 0 \<and>
   slack (solve_hot_tubs no_solution \<lparr>pumps = 10, labor_hours = 60, tubing_feet = 120\<rparr>)
     = [''pumps'' \<mapsto> 10, ''labor'' \<mapsto> 60, ''tubing'' \<mapsto> 120]"
  using no_values_zero_plan [of no_solution "\<lparr>pumps = 10, labor_hours = 60, tubing_feet = 120\<rparr>"]
  by (simp add: no_solution_def envelope_def)

lemma scan_deltas_first:
  assumes "i + length ds \<le> length xs"
  shows "scan_deltas xs first i ds =
     (let k = length (takeWhile (\<lambda>d. \<not> tolerance < \<bar>d - first\<bar>) ds)
      in if k < length ds then Inr (Some (xs ! (i + k))) else Inr None)"
  using assms
proof (induction ds arbitrary: i)
  case Nil
  then show ?case by simp
next
  case (Cons d ds)
  show ?case
  proof (cases "tolerance < \<bar>d - first\<bar>")
    case True
    with Cons.prems show ?thesis by (simp add: py_nth_def)
  next
    case False
    from Cons.prems have "Suc i + length ds \<le> length xs" by simp
    from Cons.IH [OF this] False show ?thesis by (simp add: Let_def)
  qed
qed

lemma marginal_deltas_nth:
  assumes "i + 1 < length profits"
  shows "marginal_deltas profits ! i = delta profits i"
proof -
  from assms have "i < length profits - 1" by simp
  then show ?thesis by (simp add: marginal_deltas_def delta_def)
qed

lemma length_marginal_deltas: "length (marginal_deltas profits) = length profits - 1"
  by (simp add: marginal_deltas_def)

lemma detect_breakpoint_ok:
  assumes len: "length xs = length profits" and two: "2 \<le> length profits"
  shows "\<exists>bp. detect_breakpoint xs (marginal_deltas profits) = Inr bp \<and> breakpoint_of xs profits bp"
proof -
  let ?ds = "marginal_deltas profits"
  from two have ne: "?ds \<noteq> []" using length_marginal_deltas [of profits] by auto
  then obtain first rest where ds: "?ds = first # rest" by (cases ?ds) auto
  have lrest: "Suc (length rest) = length profits - 1"
    using length_marginal_deltas [of profits] ds by simp
  have first: "first = delta profits 0"
    using marginal_deltas_nth [of 0 profits] two ds by simp
  have rest: "rest ! j = delta profits (Suc j)" if "j < length rest" for j
    using marginal_deltas_nth [of "Suc j" profits] that lrest ds by simp
  let ?ok = "\<lambda>d. \<not> tolerance < \<bar>d - first\<bar>"
  let ?k = "length (takeWhile ?ok rest)"
  have scan: "scan_deltas xs first 1 rest =
      (if ?k < length rest then Inr (Some (xs ! (1 + ?k))) else Inr None)"
    using scan_deltas_first [of 1 rest xs first] lrest len by (simp add: Let_def)
  have before: "\<not> deviates profits j" if "j < Suc ?k" for j
  proof (cases j)
    case 0
    then show ?thesis by (simp add: deviates_def)
  next
    case (Suc m)
    with that have m: "m < ?k" by simp
    then have "rest ! m \<in> set (takeWhile ?ok rest)"
      by (metis nth_mem takeWhile_nth)
    then have "?ok (rest ! m)" by (auto dest: set_takeWhileD)
    moreover have "m < length rest" using m length_takeWhile_le [of ?ok rest] by simp
    ultimately show ?thesis using rest [of m] Suc first by (simp add: deviates_def)
  qed
  show ?thesis
  proof (cases "?k < length rest")
    case True
    then have "\<not> ?ok (rest ! ?k)" by (rule nth_length_takeWhile)
    with True rest [of ?k] first lrest have "deviates profits (Suc ?k)"
      by (simp add: deviates_def)
    with before have "breakpoint_of xs profits (xs ! Suc ?k)"
      unfolding breakpoint_of_def by blast
    moreover have "detect_breakpoint xs ?ds = Inr (xs ! Suc ?k)"
      using True scan ds by (simp add: detect_breakpoint_def)
    ultimately show ?thesis by blast
  next
    case False
    then have all: "?k = length rest" using length_takeWhile_le [of ?ok rest] by simp
    have "\<not> deviates profits j" for j
    proof (cases "j < Suc ?k")
      case True
      then show ?thesis by (rule before)
    next
      case False
      with all lrest have "\<not> j + 1 < length profits" by linarith
      then show ?thesis unfolding deviates_def by blast
    qed
    then have "breakpoint_of xs profits (last xs)"
      unfolding breakpoint_of_def by blast
    moreover from len two have "xs \<noteq> []" by auto
    then have "detect_breakpoint xs ?ds = Inr (last xs)"
      using False scan ds by (simp add: detect_breakpoint_def py_last_def)
    ultimately show ?thesis by blast
  qed
qed

lemma foldl_keep_larger:
  "foldl (\<lambda>m y. if m < y then y else m) (x::real) xs = Max (set (x # xs))"
proof (induction xs arbitrary: x)
  case Nil
  then show ?case by simp
next
  case (Cons a xs)
  have "foldl (\<lambda>m y. if m < y then y else m) x (a # xs) =
        foldl (\<lambda>m y. if m < y then y else m) (max x a) xs"
    by (simp add: max_def)
  also have "\<dots> = Max (set (max x a # xs))" by (rule Cons.IH)
  also have "\<dots> = Max (set (x # a # xs))"
    by (cases "xs = []") (simp_all add: max.assoc)
  finally show ?case .
qed

lemma py_max_Max: "profits \<noteq> [] \<Longrightarrow> py_max profits = Inr (Max (set profits))"
  by (cases profits) (simp_all add: foldl_keep_larger del: foldl_Cons set_simps)

lemma py_index_first:
  "v \<in> set xs \<Longrightarrow>
     \<exists>k<length xs. py_index xs v = Inr k \<and> xs ! k = v \<and> (\<forall>j<k. xs ! j \<noteq> v)"
proof (induction xs)
  case Nil
  then show ?case by simp
next
  case (Cons x xs)
  show ?case
  proof (cases "x = v")
    case True
    then show ?thesis by simp
  next
    case False
    with Cons.prems have "v \<in> set xs" by simp
    from Cons.IH [OF this] obtain k where k: "k < length xs" "py_index xs v = Inr k"
      "xs ! k = v" "\<forall>j<k. xs ! j \<noteq> v" by blast
    have "\<forall>j<Suc k. (x # xs) ! j \<noteq> v"
      using False k(4) by (simp add: nth_Cons split: nat.split)
    with False k(1-3) show ?thesis
      by (intro exI [of _ "Suc k"]) simp
  qed
qed

lemma highest_profit_ok:
  assumes "profits \<noteq> []" and "length xs = length profits"
  shows "\<exists>mp ma. highest_profit xs profits = Inr (mp, ma) \<and> highest_of xs profits mp ma"
proof -
  have "Max (set profits) \<in> set profits" using assms(1) by (simp add: Max_in)
  from py_index_first [OF this] obtain k where k: "k < length profits"
    "py_index profits (Max (set profits)) = Inr k" "profits ! k = Max (set profits)"
    "\<forall>j<k. profits ! j \<noteq> Max (set profits)" by blast
  have "highest_profit xs profits = Inr (Max (set profits), xs ! k)"
    using k(1,2) assms by (simp add: highest_profit_def py_max_Max py_nth_def)
  moreover have "highest_of xs profits (Max (set profits)) (xs ! k)"
    unfolding highest_of_def using k by blast
  ultimately show ?thesis by blast
qed

lemma detect_breakpoint_total:
  assumes "length xs = length profits" and "profits \<noteq> []"
  shows "\<exists>bp. detect_breakpoint xs (marginal_deltas profits) = Inr bp"
proof (cases "2 \<le> length profits")
  case True
  from detect_breakpoint_ok [OF assms(1) True] show ?thesis by blast
next
  case False
  moreover from assms(2) have "length profits \<noteq> 0" by simp
  ultimately have "length profits = 1" by linarith
  then have "marginal_deltas profits = []" by (simp add: marginal_deltas_def)
  moreover from assms have "xs \<noteq> []" by auto
  ultimately show ?thesis by (simp add: detect_breakpoint_def py_last_def)
qed

lemma summarise_ok:
  assumes "length xs = length profits" and "profits \<noteq> []"
  shows "\<exists>bp mp ma. summarise xs profits = Inr (xs, profits, bp, mp, ma) \<and>
           highest_of xs profits mp ma \<and>
           (2 \<le> length profits \<longrightarrow> breakpoint_of xs profits bp)"
proof -
  obtain bp where bp: "detect_breakpoint xs (marginal_deltas profits) = Inr bp"
    "2 \<le> length profits \<longrightarrow> breakpoint_of xs profits bp"
  proof (cases "2 \<le> length profits")
    case True
    from detect_breakpoint_ok [OF assms(1) True] that show ?thesis by blast
  next
    case False
    with detect_breakpoint_total [OF assms] that show ?thesis by blast
  qed
  from highest_profit_ok [OF assms(2,1)] obtain mp ma
    where hp: "highest_profit xs profits = Inr (mp, ma)" "highest_of xs profits mp ma"
    by blast
  from bp hp show ?thesis by (simp add: summarise_def)
qed

lemma summarise_empty: "summarise [] [] = Inl IndexError"
  by (simp add: summarise_def detect_breakpoint_def marginal_deltas_def py_last_def)

lemma curve_pumps_unfold:
  "sensitivity_curve_pumps solver start stop labor tubing =
     summarise [start..stop] (map (profit_of_pumps solver labor tubing) [start..stop])"
  by (simp add: sensitivity_curve_pumps_def Let_def profit_of_pumps_def [abs_def])

lemma curve_labor_unfold:
  "sensitivity_curve_labor solver start stop pumps' tubing =
     summarise [start..stop] (map (profit_of_labor solver pumps' tubing) [start..stop])"
  by (simp add: sensitivity_curve_labor_def Let_def profit_of_labor_def [abs_def])

subsection \<open>The curve functions of run\_analysis.py\<close>

text \<open>
  Claim C1. For every sweep with at least two points (\<open>start < stop\<close>), the
  breakpoint that \<open>sensitivity_curve_pumps\<close> and \<open>sensitivity_curve_labor\<close> return is
  \<open>xs[i]\<close> for the smallest delta index \<open>i \<ge> 1\<close> with
  \<open>|delta[i] - delta[0]| > 1e-6\<close>, where \<open>delta[i] = profits[i+1] - profits[i]\<close>, and
  it is the last tested value \<open>xs[-1]\<close> when no such index exists.
\<close>

theorem curve_breakpoint:
  assumes "start < stop"
  shows "(\<exists>bp mp ma.
            sensitivity_curve_pumps solver start stop labor tubing =
              Inr ([start..stop], map (profit_of_pumps solver labor tubing) [start..stop],
                   bp, mp, ma) \<and>
            breakpoint_of [start..stop]
              (map (profit_of_pumps solver labor tubing) [start..stop]) bp) \<and>
         (\<exists>bp mp ma.
            sensitivity_curve_labor solver start stop pumps' tubing =
              Inr ([start..stop], map (profit_of_labor solver pumps' tubing) [start..stop],
                   bp, mp, ma) \<and>
            breakpoint_of [start..stop]
              (map (profit_of_labor solver pumps' tubing) [start..stop]) bp)"
proof -
  from assms have two: "2 \<le> length (map f [start..stop])" for f :: "int \<Rightarrow> real"
    by simp
  then have ne: "map f [start..stop] \<noteq> []" for f :: "int \<Rightarrow> real"
    using assms by simp
  have len: "length [start..stop] = length (map f [start..stop])" for f :: "int \<Rightarrow> real"
    by simp
  from summarise_ok [OF len ne, of "profit_of_pumps solver labor tubing"]
    summarise_ok [OF len ne, of "profit_of_labor solver pumps' tubing"] two
  show ?thesis
    unfolding curve_pumps_unfold curve_labor_unfold by blast
qed

text \<open>
  Claim C9. For every non-empty sweep (\<open>start \<le> stop\<close>), both curve functions
  return as \<open>max_profit\<close> the maximum of the collected profits and as \<open>max_at\<close> the
  parameter value at the first position where the series reaches it.
\<close>

theorem curve_highest_profit:
  assumes "start \<le> stop"
  shows "(\<exists>bp mp ma.
            sensitivity_curve_pumps solver start stop labor tubing =
              Inr ([start..stop], map (profit_of_pumps solver labor tubing) [start..stop],
                   bp, mp, ma) \<and>
            highest_of [start..stop]
              (map (profit_of_pumps solver labor tubing) [start..stop]) mp ma) \<and>
         (\<exists>bp mp ma.
            sensitivity_curve_labor solver start stop pumps' tubing =
              Inr ([start..stop], map (profit_of_labor solver pumps' tubing) [start..stop],
                   bp, mp, ma) \<and>
            highest_of [start..stop]
              (map (profit_of_labor solver pumps' tubing) [start..stop]) mp ma)"
proof -
  from assms have ne: "map f [start..stop] \<noteq> []" for f :: "int \<Rightarrow> real"
    by simp
  have len: "length [start..stop] = length (map f [start..stop])" for f :: "int \<Rightarrow> real"
    by simp
  from summarise_ok [OF len ne, of "profit_of_pumps solver labor tubing"]
    summarise_ok [OF len ne, of "profit_of_labor solver pumps' tubing"]
  show ?thesis
    unfolding curve_pumps_unfold curve_labor_unfold by blast
qed

text \<open>
  Claim C10. For an empty range (\<open>stop < start\<close>) both curve functions fail with
  IndexError, raised by \<open>xs[-1]\<close> on the empty list (\<open>max\<close> of the empty profits would
  raise ValueError, but is not reached); for every non-empty range \<open>xs[-1]\<close> and
  \<open>max(profits)\<close> are defined and both functions return a complete result.
\<close>

theorem curve_returns_iff_nonempty:
  "(stop < start \<longrightarrow>
      sensitivity_curve_pumps solver start stop labor tubing = Inl IndexError \<and>
      sensitivity_curve_labor solver start stop pumps' tubing = Inl IndexError \<and>
      py_last [start..stop] = Inl IndexError \<and>
      py_max (map (profit_of_pumps solver labor tubing) [start..stop]) = Inl ValueError \<and>
      py_max (map (profit_of_labor solver pumps' tubing) [start..stop]) = Inl ValueError) \<and>
   (start \<le> stop \<longrightarrow>
      (\<exists>bp mp ma. sensitivity_curve_pumps solver start stop labor tubing =
         Inr ([start..stop], map (profit_of_pumps solver labor tubing) [start..stop],
              bp, mp, ma)) \<and>
      (\<exists>bp mp ma. sensitivity_curve_labor solver start stop pumps' tubing =
         Inr ([start..stop], map (profit_of_labor solver pumps' tubing) [start..stop],
              bp, mp, ma)) \<and>
      (\<exists>x. py_last [start..stop] = Inr x) \<and>
      (\<exists>m. py_max (map (profit_of_pumps solver labor tubing) [start..stop]) = Inr m) \<and>
      (\<exists>m. py_max (map (profit_of_labor solver pumps' tubing) [start..stop]) = Inr m))"
proof (intro conjI impI)
  assume e: "stop < start"
  then show "sensitivity_curve_pumps solver start stop labor tubing = Inl IndexError"
    unfolding curve_pumps_unfold by (simp add: summarise_empty)
  from e show "sensitivity_curve_labor solver start stop pumps' tubing = Inl IndexError"
    unfolding curve_labor_unfold by (simp add: summarise_empty)
  from e show "py_last [start..stop] = Inl IndexError" by (simp add: py_last_def)
  from e show "py_max (map (profit_of_pumps solver labor tubing) [start..stop]) = Inl ValueError"
    by simp
  from e show "py_max (map (profit_of_labor solver pumps' tubing) [start..stop]) = Inl ValueError"
    by simp
next
  assume n: "start \<le> stop"
  then have ne: "map f [start..stop] \<noteq> []" for f :: "int \<Rightarrow> real"
    by simp
  have len: "length [start..stop] = length (map f [start..stop])" for f :: "int \<Rightarrow> real"
    by simp
  from summarise_ok [OF len ne, of "profit_of_pumps solver labor tubing"]
  show "\<exists>bp mp ma. sensitivity_curve_pumps solver start stop labor tubing =
         Inr ([start..stop], map (profit_of_pumps solver labor tubing) [start..stop],
              bp, mp, ma)"
    unfolding curve_pumps_unfold by blast
  from summarise_ok [OF len ne, of "profit_of_labor solver pumps' tubing"]
  show "\<exists>bp mp ma. sensitivity_curve_labor solver start stop pumps' tubing =
         Inr ([start..stop], map (profit_of_labor solver pumps' tubing) [start..stop],
              bp, mp, ma)"
    unfolding curve_labor_unfold by blast
  from n show "\<exists>x. py_last [start..stop] = Inr x" by (simp add: py_last_def)
  from ne show "\<exists>m. py_max (map (profit_of_pumps solver labor tubing) [start..stop]) = Inr m"
    by (simp add: py_max_Max)
  from ne show "\<exists>m. py_max (map (profit_of_labor solver pumps' tubing) [start..stop]) = Inr m"
    by (simp add: py_max_Max)
qed

lemma find_upto_Some:
  "find Q [a..b] = Some t \<longleftrightarrow>
     a \<le> t \<and> t \<le> b \<and> Q t \<and> (\<forall>u. a \<le> u \<and> u < t \<longrightarrow> \<not> Q u)"
proof (induction a b rule: upto.induct)
  case (1 i j)
  show ?case
  proof (cases "i \<le> j")
    case False
    then show ?thesis by auto
  next
    case True
    then have step: "[i..j] = i # [i + 1..j]" by (rule upto_rec1)
    show ?thesis
    proof (cases "Q i")
      case True
      with \<open>i \<le> j\<close> show ?thesis unfolding step by auto
    next
      case False
      have "(\<forall>u. i + 1 \<le> u \<and> u < t \<longrightarrow> \<not> Q u) \<longleftrightarrow> (\<forall>u. i \<le> u \<and> u < t \<longrightarrow> \<not> Q u)"
        using False by (metis add1_zle_eq order_le_less)
      moreover have "i + 1 \<le> t \<and> Q t \<longleftrightarrow> i \<le> t \<and> Q t"
        using False by (metis add1_zle_eq order_le_less)
      ultimately show ?thesis
        unfolding step using False "1.IH" [OF True] by auto
    qed
  qed
qed

lemma find_upto_None: "find Q [a..b] = None \<longleftrightarrow> (\<forall>u. a \<le> u \<and> u \<le> b \<longrightarrow> \<not> Q u)"
  by (auto simp: find_None_iff)

lemma scan_profits_found:
  "\<exists>l. scan_profits P (l0, Some fd, Some b) vs = (l, Some fd, Some b)"
  by (induction vs arbitrary: l0) (simp_all add: Let_def)

lemma scan_profits_find:
  "\<exists>l. scan_profits P (P (a - 1), Some fd, None) [a..b] =
     (l, Some fd, find (\<lambda>v. tolerance < \<bar>rounded_delta P v - fd\<bar>) [a..b])"
proof (induction a b rule: upto.induct)
  case (1 i j)
  show ?case
  proof (cases "i \<le> j")
    case False
    then show ?thesis by simp
  next
    case True
    then have step: "[i..j] = i # [i + 1..j]" by (rule upto_rec1)
    show ?thesis
    proof (cases "tolerance < \<bar>rounded_delta P i - fd\<bar>")
      case True
      then have "record_delta i (P i) (P (i - 1), Some fd, None) = (P i, Some fd, Some i)"
        by (simp add: rounded_delta_def Let_def)
      with True scan_profits_found [of P "P i" fd i "[i + 1..j]"] show ?thesis
        unfolding step by simp
    next
      case False
      then have "record_delta i (P i) (P (i - 1), Some fd, None) = (P i, Some fd, None)"
        by (simp add: rounded_delta_def Let_def)
      with False "1.IH" [OF True] show ?thesis
        unfolding step by simp
    qed
  qed
qed

lemma q1_loop_scan:
  "q1_loop solver base_res st ps =
     scan_profits (profit_of_pumps solver (labor_hours base_res) (tubing_feet base_res)) st ps"
  by (induction ps arbitrary: st) (simp_all add: Let_def profit_of_pumps_def)


lemma marginal_scan_report:
  assumes "a \<le> b"
  shows "print_marginal (scan_profits P (P (a - 1), None, None) [a..b]) =
     (case find (\<lambda>v. tolerance < \<bar>rounded_delta P v - rounded_delta P a\<bar>) [a + 1..b] of
        None \<Rightarrow> if True then Inr (NoBreakpoint (rounded_delta P a)) else Inl TypeError
      | Some v \<Rightarrow>
          if v \<noteq> 0 then Inr (BreakpointNear (rounded_delta P a) (v - 1) v)
          else Inr (NoBreakpoint (rounded_delta P a)))"
proof -
  from assms have step: "[a..b] = a # [a + 1..b]" by (rule upto_rec1)
  have first: "record_delta a (P a) (P (a - 1), None, None) = (P a, Some (rounded_delta P a), None)"
    by (simp add: rounded_delta_def Let_def)
  from scan_profits_find [of P "a + 1" "rounded_delta P a" b]
  obtain l where "scan_profits P (P a, Some (rounded_delta P a), None) [a + 1..b] =
     (l, Some (rounded_delta P a),
      find (\<lambda>v. tolerance < \<bar>rounded_delta P v - rounded_delta P a\<bar>) [a + 1..b])"
    by auto
  with first show ?thesis unfolding step by (simp split: option.split)
qed

lemma q1_report:
  assumes "201 \<le> max_test"
  shows "q1_more_pumps solver max_test =
     Inr (case find (\<lambda>p. tolerance < \<bar>rounded_delta (profit_of_pumps solver 1566 2880) p
                                    - rounded_delta (profit_of_pumps solver 1566 2880) 201\<bar>)
                 [202..max_test] of
            None \<Rightarrow> NoBreakpoint (rounded_delta (profit_of_pumps solver 1566 2880) 201)
          | Some b \<Rightarrow> BreakpointNear (rounded_delta (profit_of_pumps solver 1566 2880) 201) (b - 1) b)"
proof -
  let ?P = "profit_of_pumps solver 1566 2880"
  have base: "profit (solve_hot_tubs solver default_Resources) = ?P (201 - 1)"
    by (simp add: profit_of_pumps_def default_Resources_def)
  have nz: "b \<noteq> 0" if "find Q [202..max_test] = Some b" for Q b
    using that by (auto simp: find_upto_Some)
  have "q1_more_pumps solver max_test =
      print_marginal (scan_profits ?P (?P (201 - 1), None, None) [201..max_test])"
    unfolding q1_more_pumps_def Let_def q1_loop_scan base
    by (simp add: default_Resources_def)
  also note marginal_scan_report [OF assms, of ?P]
  finally show ?thesis using nz by (auto split: option.split)
qed


lemma q3_loop_find:
  "q3_loop solver base_res
       (profit_of_tubing solver (pumps base_res) (labor_hours base_res) (a - 1)) [a..b] =
     (case find (\<lambda>t. tolerance <
          \<bar>rounded_delta (profit_of_tubing solver (pumps base_res) (labor_hours base_res)) t\<bar>)
        [a..b] of
        None \<Rightarrow> NonBinding
      | Some t \<Rightarrow> BecomesBinding t
          (rounded_delta (profit_of_tubing solver (pumps base_res) (labor_hours base_res)) t))"
proof (induction a b rule: upto.induct)
  case (1 i j)
  let ?T = "profit_of_tubing solver (pumps base_res) (labor_hours base_res)"
  show ?case
  proof (cases "i \<le> j")
    case False
    then show ?thesis by simp
  next
    case True
    then have step: "[i..j] = i # [i + 1..j]" by (rule upto_rec1)
    have T: "profit (solve_hot_tubs solver
        \<lparr>pumps = pumps base_res, labor_hours = labor_hours base_res, tubing_feet = i\<rparr>) = ?T i"
      by (simp add: profit_of_tubing_def)
    show ?thesis
      unfolding step using "1.IH" [OF True]
      by (simp add: Let_def T rounded_delta_def)
  qed
qed

lemma q3_report:
  "q3_more_tubing solver increment =
     (case find (\<lambda>t. tolerance < \<bar>rounded_delta (profit_of_tubing solver 200 1566) t\<bar>)
        [2881..2880 + increment] of
        None \<Rightarrow> NonBinding
      | Some t \<Rightarrow> BecomesBinding t (rounded_delta (profit_of_tubing solver 200 1566) t))"
proof -
  have d: "pumps default_Resources = 200" "labor_hours default_Resources = 1566"
    by (simp_all add: default_Resources_def)
  have base: "profit (solve_hot_tubs solver default_Resources) =
      profit_of_tubing solver (pumps default_Resources) (labor_hours default_Resources) (2881 - 1)"
    by (simp add: profit_of_tubing_def default_Resources_def)
  have "q3_more_tubing solver increment =
      q3_loop solver default_Resources
        (profit_of_tubing solver (pumps default_Resources) (labor_hours default_Resources) (2881 - 1))
        [2881..2880 + increment]"
    unfolding q3_more_tubing_def Let_def base by (simp add: default_Resources_def)
  also note q3_loop_find
  finally show ?thesis unfolding d .
qed

lemma detect_breakpoint_find:
  assumes "start < stop"
  shows "detect_breakpoint [start..stop] (marginal_deltas (map P [start..stop])) =
     Inr (case find (\<lambda>p. tolerance < \<bar>(P p - P (p - 1)) - (P (start + 1) - P start)\<bar>)
                 [start + 2..stop] of
            None \<Rightarrow> stop
          | Some b \<Rightarrow> b - 1)"
proof -
  let ?xs = "[start..stop]"
  let ?ps = "map P [start..stop]"
  let ?dev = "\<lambda>p. tolerance < \<bar>(P p - P (p - 1)) - (P (start + 1) - P start)\<bar>"
  have len: "length ?ps = nat (stop - start + 1)" by simp
  have two: "2 \<le> length ?ps" using assms by simp
  have nth: "?ps ! k = P (start + int k)" if "start + int k \<le> stop" for k
    using that by (simp add: nth_upto)
  have xnth: "?xs ! k = start + int k" if "start + int k \<le> stop" for k
    using that by (simp add: nth_upto)
  have d0: "delta ?ps 0 = P (start + 1) - P start"
    using nth [of 0] nth [of 1] assms by (simp add: delta_def)
  have E: "deviates ?ps i \<longleftrightarrow> 1 \<le> i \<and> start + int i + 1 \<le> stop \<and> ?dev (start + int i + 1)"
    for i
  proof (cases "start + int i + 1 \<le> stop")
    case True
    then have "i + 1 < length ?ps" by simp
    moreover have "delta ?ps i = P (start + int i + 1) - P (start + int i + 1 - 1)"
      using nth [of i] nth [of "i + 1"] True by (simp add: delta_def ac_simps)
    ultimately show ?thesis using True unfolding deviates_def d0 by simp
  next
    case False
    then have "\<not> i + 1 < length ?ps" by simp
    with False show ?thesis unfolding deviates_def by blast
  qed
  from detect_breakpoint_ok [of ?xs ?ps] two obtain bp
    where bp: "detect_breakpoint ?xs (marginal_deltas ?ps) = Inr bp"
      and br: "breakpoint_of ?xs ?ps bp" by auto
  show ?thesis
  proof (cases "find ?dev [start + 2..stop]")
    case None
    then have none: "\<not> ?dev u" if "start + 2 \<le> u" "u \<le> stop" for u
      using that unfolding find_upto_None by blast
    have "\<not> deviates ?ps i" for i
    proof
      assume "deviates ?ps i"
      then have "1 \<le> i" "start + int i + 1 \<le> stop" "?dev (start + int i + 1)"
        unfolding E by blast+
      with none [of "start + int i + 1"] show False by simp
    qed
    with br have "bp = last ?xs" unfolding breakpoint_of_def by blast
    also have "\<dots> = stop"
    proof -
      from assms have "[start..stop] = [start..stop - 1] @ [stop]"
        by (intro upto_rec2) simp
      then show ?thesis by (simp only: last_snoc)
    qed
    finally show ?thesis using bp None by simp
  next
    case (Some b)
    then have b: "start + 2 \<le> b" "b \<le> stop" "?dev b"
      and before: "\<And>u. start + 2 \<le> u \<Longrightarrow> u < b \<Longrightarrow> \<not> ?dev u"
      unfolding find_upto_Some by blast+
    define i where "i = nat (b - start - 1)"
    have i: "1 \<le> i" "start + int i + 1 = b" using b(1) by (simp_all add: i_def)
    have devi: "deviates ?ps i" unfolding E using i b by simp
    have firsti: "\<not> deviates ?ps j" if "j < i" for j
    proof
      assume "deviates ?ps j"
      then have j: "1 \<le> j" "?dev (start + int j + 1)" unfolding E by blast+
      from that i(2) have "start + int j + 1 < b" by simp
      moreover from j(1) have "start + 2 \<le> start + int j + 1" by simp
      ultimately show False using before j(2) by blast
    qed
    from br devi obtain i' where i': "deviates ?ps i'" "\<forall>j<i'. \<not> deviates ?ps j"
      "bp = ?xs ! i'" unfolding breakpoint_of_def by blast
    have "i' = i"
    proof (rule ccontr)
      assume "i' \<noteq> i"
      then consider "i' < i" | "i < i'" by linarith
      then show False
      proof cases
        case 1
        with firsti i'(1) show False by blast
      next
        case 2
        with i'(2) devi show False by blast
      qed
    qed
    with i'(3) have "bp = ?xs ! i" by simp
    also have "\<dots> = start + int i" using xnth [of i] i(2) b(2) by simp
    also have "\<dots> = b - 1" using i(2) by simp
    finally show ?thesis using bp Some by simp
  qed
qed

text \<open>
  Claim C2, amended. On identical solver outputs for the pumps \<open>200..max_test\<close>
  (labour and tubing at their defaults) whose successive profit differences are whole
  cents, \<open>q1_more_pumps\<close> and \<open>sensitivity_curve_pumps\<close> find the same first deviating
  delta but name it differently: when the curve returns a breakpoint \<open>bp\<close> below
  \<open>max_test\<close>, \<open>q1_more_pumps\<close> reports "constant until about \<open>bp\<close>, breakpoint near
  \<open>bp + 1\<close>"; when no delta deviates, the curve returns \<open>max_test\<close> and
  \<open>q1_more_pumps\<close> reports that no breakpoint was detected.
\<close>

theorem pump_breakpoints_one_apart:
  assumes "201 \<le> max_test"
    and cents: "\<forall>p. 201 \<le> p \<and> p \<le> max_test \<longrightarrow>
          round2 (profit_of_pumps solver 1566 2880 p - profit_of_pumps solver 1566 2880 (p - 1))
          = profit_of_pumps solver 1566 2880 p - profit_of_pumps solver 1566 2880 (p - 1)"
  shows "\<exists>fd bp mp ma.
      sensitivity_curve_pumps solver 200 max_test 1566 2880 =
        Inr ([200..max_test], map (profit_of_pumps solver 1566 2880) [200..max_test], bp, mp, ma) \<and>
      (q1_more_pumps solver max_test = Inr (BreakpointNear fd bp (bp + 1)) \<and> bp < max_test \<or>
       q1_more_pumps solver max_test = Inr (NoBreakpoint fd) \<and> bp = max_test)"
proof -
  let ?P = "profit_of_pumps solver 1566 2880"
  let ?raw = "\<lambda>p. tolerance < \<bar>(?P p - ?P (p - 1)) - (?P (200 + 1) - ?P 200)\<bar>"
  let ?rnd = "\<lambda>p. tolerance < \<bar>rounded_delta ?P p - rounded_delta ?P 201\<bar>"
  have rd: "rounded_delta ?P p = ?P p - ?P (p - 1)" if "201 \<le> p" "p \<le> max_test" for p
    using cents that by (simp add: rounded_delta_def delta_profit_def)
  have same: "?rnd p = ?raw p" if "202 \<le> p" "p \<le> max_test" for p
    using rd [of p] rd [of 201] that assms(1) by simp
  have fnd: "find ?rnd [202..max_test] = find ?raw [200 + 2..max_test]"
    by (rule find_cong) (use same in auto)
  from assms(1) have lt: "200 < max_test" by simp
  have len: "length [200..max_test] = length (map ?P [200..max_test])" by simp
  from lt have ne: "map ?P [200..max_test] \<noteq> []" by simp
  from summarise_ok [OF len ne] obtain bp mp ma
    where s: "summarise [200..max_test] (map ?P [200..max_test]) =
      Inr ([200..max_test], map ?P [200..max_test], bp, mp, ma)" by blast
  then have "detect_breakpoint [200..max_test] (marginal_deltas (map ?P [200..max_test])) = Inr bp"
    by (auto simp: summarise_def split: sum.splits)
  with detect_breakpoint_find [OF lt, of ?P]
  have bp: "bp = (case find ?raw [200 + 2..max_test] of None \<Rightarrow> max_test | Some b \<Rightarrow> b - 1)"
    by simp
  note q1 = q1_report [OF assms(1), of solver]
  show ?thesis
  proof (cases "find ?raw [200 + 2..max_test]")
    case None
    with bp q1 fnd s show ?thesis
      unfolding curve_pumps_unfold by auto
  next
    case (Some b)
    then have "b \<le> max_test" unfolding find_upto_Some by blast
    with Some bp q1 fnd s show ?thesis
      unfolding curve_pumps_unfold by auto
  qed
qed

subsection \<open>Concrete sweeps\<close>

lemma round2_of_int: "round2 (real_of_int n) = real_of_int n"
proof -
  have "real_of_int n * 100 = real_of_int (n * 100)" by simp
  then have "round_half_even (real_of_int n * 100) = n * 100"
    unfolding round_half_even_def Let_def by (simp only: floor_of_int) simp
  then show ?thesis by (simp add: round2_def)
qed

lemma pump_sweep_profit:
  "profit (solve_hot_tubs pump_sweep_optimum res) =
     (if pumps res \<le> 207 then 26100 + 200 * real_of_int (pumps res) else 67500)"
  by (simp add: profit_solve pump_sweep_optimum_def Let_def or_zero_def)

lemma pump_sweep_profit_of_pumps:
  "profit_of_pumps pump_sweep_optimum labor tubing p =
     (if p \<le> 207 then 26100 + 200 * real_of_int p else 67500)"
  by (simp add: profit_of_pumps_def pump_sweep_profit)

lemma pump_sweep_profit_of_tubing:
  "profit_of_tubing pump_sweep_optimum 200 1566 t = 66100"
  by (simp add: profit_of_tubing_def pump_sweep_profit)

lemma q1_calibration:
  "q1_more_pumps pump_sweep_optimum 220 = Inr (BreakpointNear 200 207 208)"
  by (simp add: q1_more_pumps_def default_Resources_def pump_sweep_profit Let_def
      delta_profit_def round2_def round_half_even_def)

lemma curve_calibration:
  "sensitivity_curve_pumps pump_sweep_optimum 200 220 1566 2880 =
     Inr ([200, 201, 202, 203, 204, 205, 206, 207, 208, 209, 210, 211, 212, 213, 214, 215,
           216, 217, 218, 219, 220],
          [66100, 66300, 66500, 66700, 66900, 67100, 67300, 67500, 67500, 67500, 67500,
           67500, 67500, 67500, 67500, 67500, 67500, 67500, 67500, 67500, 67500],
          207, 67500, 207)"
  by (simp add: sensitivity_curve_pumps_def pump_sweep_profit Let_def summarise_def
      marginal_deltas_def detect_breakpoint_def py_nth_def py_last_def highest_profit_def)

subsection \<open>The scans of sensitivity.py\<close>


lemma cent_noise_profit:
  "profit (solve_hot_tubs cent_noise res) =
     26100 + 200 * real_of_int (pumps res)
       + (if 202 \<le> pumps res then 4 / 1000 else 0)
       + (if 2881 \<le> tubing_feet res then 4 / 1000 else 0)"
  by (simp add: profit_solve cent_noise_def Let_def or_zero_def objective_def)






theorem curve_breakpoint_witness:
  "sensitivity_curve_pumps pump_sweep_optimum 200 220 1566 2880 =
     Inr ([200..220], map (profit_of_pumps pump_sweep_optimum 1566 2880) [200..220],
          207, 67500, 207) \<and>
   breakpoint_of [200..220] (map (profit_of_pumps pump_sweep_optimum 1566 2880) [200..220]) 207"
proof -
  have "(200::int) < 220" by simp
  from curve_breakpoint [OF this, of pump_sweep_optimum 1566 2880]
  obtain bp mp ma where r: "sensitivity_curve_pumps pump_sweep_optimum 200 220 1566 2880 =
      Inr ([200..220], map (profit_of_pumps pump_sweep_optimum 1566 2880) [200..220], bp, mp, ma)"
    and b: "breakpoint_of [200..220]
      (map (profit_of_pumps pump_sweep_optimum 1566 2880) [200..220]) bp"
    by blast
  from r have "bp = 207" "mp = 67500" "ma = 207"
    unfolding curve_calibration by simp_all
  with r b show ?thesis by simp
qed

theorem curve_highest_profit_witness:
  "sensitivity_curve_pumps pump_sweep_optimum 200 220 1566 2880 =
     Inr ([200..220], map (profit_of_pumps pump_sweep_optimum 1566 2880) [200..220],
          207, 67500, 207) \<and>
   highest_of [200..220] (map (profit_of_pumps pump_sweep_optimum 1566 2880) [200..220])
     67500 207"
proof -
  have "(200::int) \<le> 220" by simp
  from curve_highest_profit [OF this, of pump_sweep_optimum 1566 2880]
  obtain bp mp ma where r: "sensitivity_curve_pumps pump_sweep_optimum 200 220 1566 2880 =
      Inr ([200..220], map (profit_of_pumps pump_sweep_optimum 1566 2880) [200..220], bp, mp, ma)"
    and h: "highest_of [200..220]
      (map (profit_of_pumps pump_sweep_optimum 1566 2880) [200..220]) mp ma"
    by blast
  from r have "bp = 207" "mp = 67500" "ma = 207"
    unfolding curve_calibration by simp_all
  with r h show ?thesis by simp
qed

theorem curve_returns_iff_nonempty_witness:
  "sensitivity_curve_pumps pump_sweep_optimum 200 199 1566 2880 = Inl IndexError \<and>
   sensitivity_curve_labor pump_sweep_optimum 1566 1565 200 2880 = Inl IndexError \<and>
   (\<exists>bp mp ma. sensitivity_curve_pumps pump_sweep_optimum 200 200 1566 2880 =
      Inr ([200..200], map (profit_of_pumps pump_sweep_optimum 1566 2880) [200..200],
           bp, mp, ma)) \<and>
   (\<exists>bp mp ma. sensitivity_curve_labor pump_sweep_optimum 1566 1566 200 2880 =
      Inr ([1566..1566], map (profit_of_labor pump_sweep_optimum 200 2880) [1566..1566],
           bp, mp, ma))"
  using curve_returns_iff_nonempty [of 199 200 pump_sweep_optimum 1566 2880 200]
    curve_returns_iff_nonempty [of 1565 1566 pump_sweep_optimum 200 2880 200]
    curve_returns_iff_nonempty [of 200 200 pump_sweep_optimum 1566 2880 200]
    curve_returns_iff_nonempty [of 1566 1566 pump_sweep_optimum 1566 2880 200]
  by simp


lemma pump_sweep_whole_cents:
  "round2 (profit_of_pumps pump_sweep_optimum 1566 2880 p
           - profit_of_pumps pump_sweep_optimum 1566 2880 (p - 1))
   = profit_of_pumps pump_sweep_optimum 1566 2880 p
     - profit_of_pumps pump_sweep_optimum 1566 2880 (p - 1)"
proof -
  consider "p \<le> 207" | "p = 208" | "209 \<le> p" by linarith
  then show ?thesis
  proof cases
    case 1
    then have "profit_of_pumps pump_sweep_optimum 1566 2880 p
           - profit_of_pumps pump_sweep_optimum 1566 2880 (p - 1) = real_of_int 200"
      by (simp add: pump_sweep_profit_of_pumps)
    then show ?thesis by (simp only: round2_of_int)
  next
    case 2
    then have "profit_of_pumps pump_sweep_optimum 1566 2880 p
           - profit_of_pumps pump_sweep_optimum 1566 2880 (p - 1) = real_of_int 0"
      by (simp add: pump_sweep_profit_of_pumps)
    then show ?thesis by (simp only: round2_of_int)
  next
    case 3
    then have "profit_of_pumps pump_sweep_optimum 1566 2880 p
           - profit_of_pumps pump_sweep_optimum 1566 2880 (p - 1) = real_of_int 0"
      by (simp add: pump_sweep_profit_of_pumps)
    then show ?thesis by (simp only: round2_of_int)
  qed
qed

theorem pump_breakpoints_one_apart_witness:
  "q1_more_pumps pump_sweep_optimum 220 = Inr (BreakpointNear 200 207 (207 + 1)) \<and>
   sensitivity_curve_pumps pump_sweep_optimum 200 220 1566 2880 =
     Inr ([200..220], map (profit_of_pumps pump_sweep_optimum 1566 2880) [200..220],
          207, 67500, 207)"
proof -
  have "(201::int) \<le> 220" by simp
  from pump_breakpoints_one_apart [OF this, of pump_sweep_optimum] pump_sweep_whole_cents
  obtain fd bp mp ma where r: "sensitivity_curve_pumps pump_sweep_optimum 200 220 1566 2880 =
      Inr ([200..220], map (profit_of_pumps pump_sweep_optimum 1566 2880) [200..220], bp, mp, ma)"
    and q: "q1_more_pumps pump_sweep_optimum 220 = Inr (BreakpointNear fd bp (bp + 1)) \<and> bp < 220 \<or>
       q1_more_pumps pump_sweep_optimum 220 = Inr (NoBreakpoint fd) \<and> bp = 220"
    by blast
  from r have v: "bp = 207" "mp = 67500" "ma = 207"
    unfolding curve_calibration by simp_all
  with q have "q1_more_pumps pump_sweep_optimum 220 = Inr (BreakpointNear fd 207 (207 + 1))"
    by simp
  moreover from this have "fd = 200" unfolding q1_calibration by simp
  ultimately show ?thesis using r v by simp
qed

text \<open>
  Claim C2 says that the two functions identify the same breakpoint value. On the
  exact optimum of the pump sweep from 200 to 220, \<open>q1_more_pumps\<close> names 208 as
  breakpoint (and 207 as the end of the constant region), the curve function 207.
\<close>

theorem breakpoints_differ_counterexample:
  "q1_more_pumps pump_sweep_optimum 220 = Inr (BreakpointNear 200 207 208) \<and>
   sensitivity_curve_pumps pump_sweep_optimum 200 220 1566 2880 =
     Inr ([200, 201, 202, 203, 204, 205, 206, 207, 208, 209, 210, 211, 212, 213, 214, 215,
           216, 217, 218, 219, 220],
          [66100, 66300, 66500, 66700, 66900, 67100, 67300, 67500, 67500, 67500, 67500,
           67500, 67500, 67500, 67500, 67500, 67500, 67500, 67500, 67500, 67500],
          207, 67500, 207)"
  using q1_calibration curve_calibration by simp

subsection \<open>The tubing scan and the rounding to cents\<close>

text \<open>
  A delta rounded to two decimals exceeds the tolerance exactly when the raw delta
  exceeds half a cent: \<^verbatim>\<open>round(x, 2)\<close> is a whole number of cents, and it is zero
  exactly for \<open>|x| \<le> 0.005\<close>.
\<close>

lemma round_half_even_zero_iff: "round_half_even y = 0 \<longleftrightarrow> \<bar>y\<bar> \<le> 1 / 2"
proof -
  define f where "f = \<lfloor>y\<rfloor>"
  have lo: "real_of_int f \<le> y" and hi: "y < real_of_int f + 1"
    unfolding f_def by linarith+
  have r: "round_half_even y =
      (if y - real_of_int f < 1 / 2 then f
       else if 1 / 2 < y - real_of_int f then f + 1
       else if even f then f else f + 1)"
    unfolding round_half_even_def Let_def f_def by simp
  consider (neg) "f \<le> - 2" | (m1) "f = - 1" | (z) "f = 0" | (pos) "1 \<le> f" by linarith
  then show ?thesis
  proof cases
    case neg
    then have "real_of_int f \<le> - 2" by linarith
    with hi have "y < - 1" by linarith
    moreover from neg have "round_half_even y \<noteq> 0" unfolding r by auto
    ultimately show ?thesis by auto
  next
    case m1
    with lo hi show ?thesis unfolding r by auto
  next
    case z
    with lo hi show ?thesis unfolding r by auto
  next
    case pos
    then have "1 \<le> real_of_int f" by linarith
    with lo have "1 \<le> y" by linarith
    moreover from pos have "round_half_even y \<noteq> 0" unfolding r by auto
    ultimately show ?thesis by auto
  qed
qed

lemma round2_zero_iff: "round2 x = 0 \<longleftrightarrow> \<bar>x\<bar> \<le> 1 / 200"
proof -
  have "round2 x = 0 \<longleftrightarrow> round_half_even (x * 100) = 0" by (simp add: round2_def)
  also have "\<dots> \<longleftrightarrow> \<bar>x * 100\<bar> \<le> 1 / 2" by (rule round_half_even_zero_iff)
  also have "\<dots> \<longleftrightarrow> \<bar>x\<bar> \<le> 1 / 200" by (simp add: abs_mult mult.commute)
  finally show ?thesis .
qed

lemma tolerance_round2: "tolerance < \<bar>round2 x\<bar> \<longleftrightarrow> 1 / 200 < \<bar>x\<bar>"
proof (cases "round_half_even (x * 100) = 0")
  case True
  then have "round2 x = 0" by (simp add: round2_def)
  then show ?thesis using round2_zero_iff [of x] by simp
next
  case False
  then have "1 \<le> \<bar>round_half_even (x * 100)\<bar>" by linarith
  then have "1 \<le> \<bar>real_of_int (round_half_even (x * 100))\<bar>" by linarith
  then have "1 / 100 \<le> \<bar>round2 x\<bar>" by (simp add: round2_def)
  moreover from False have "round2 x \<noteq> 0" by (simp add: round2_def)
  ultimately show ?thesis using round2_zero_iff [of x] by simp
qed

lemma q3_report_raw:
  "q3_more_tubing solver increment =
     (case find (\<lambda>t. 1 / 200 < \<bar>profit_of_tubing solver 200 1566 t
                                  - profit_of_tubing solver 200 1566 (t - 1)\<bar>)
        [2881..2880 + increment] of
        None \<Rightarrow> NonBinding
      | Some t \<Rightarrow> BecomesBinding t
          (round2 (profit_of_tubing solver 200 1566 t
                   - profit_of_tubing solver 200 1566 (t - 1))))"
  unfolding q3_report rounded_delta_def delta_profit_def tolerance_round2 ..

lemma cent_noise_tubing:
  "profit_of_tubing cent_noise 200 1566 t = 66100 + (if 2881 \<le> t then 4 / 1000 else 0)"
  by (simp add: profit_of_tubing_def cent_noise_profit)

lemma tubing_jump_tubing:
  "profit_of_tubing tubing_jump 200 1566 t = 66100 + (if 2883 \<le> t then 1 else 0)"
  by (simp add: profit_of_tubing_def profit_solve tubing_jump_def Let_def or_zero_def
      objective_def)

text \<open>
  Claim C7 says that \<open>q3_more_tubing\<close> reports the first tubing value at which the
  profit delta from the previous solve exceeds the tolerance in absolute value. With a
  profit that grows by 0.004 at 2881 feet the delta there exceeds \<open>1e-6\<close>, and the
  scan over 50 feet reports tubing as non-binding: \<open>delta_profit\<close> rounds it to zero.
\<close>

theorem tubing_raw_change_missed:
  "tolerance < \<bar>profit_of_tubing cent_noise 200 1566 2881
                - profit_of_tubing cent_noise 200 1566 2880\<bar> \<and>
   q3_more_tubing cent_noise 50 = NonBinding"
proof -
  have "\<bar>profit_of_tubing cent_noise 200 1566 t
        - profit_of_tubing cent_noise 200 1566 (t - 1)\<bar> \<le> 1 / 200" for t
    by (simp add: cent_noise_tubing)
  then have "find (\<lambda>t. 1 / 200 < \<bar>profit_of_tubing cent_noise 200 1566 t
                                  - profit_of_tubing cent_noise 200 1566 (t - 1)\<bar>)
        [2881..2880 + 50] = None"
    unfolding find_upto_None by (simp add: not_less)
  then have "q3_more_tubing cent_noise 50 = NonBinding"
    unfolding q3_report_raw by simp
  moreover have "tolerance < \<bar>profit_of_tubing cent_noise 200 1566 2881
                - profit_of_tubing cent_noise 200 1566 2880\<bar>"
    by (simp add: cent_noise_tubing)
  ultimately show ?thesis by simp
qed

text \<open>
  Claim C7, amended. \<open>q3_more_tubing\<close> is the first-change scan on deltas rounded to
  cents. Going through the tubing values from 2881 to \<open>2880 + increment\<close> in increasing
  order, it reports the first value at which the profit delta from the previous solve
  exceeds half a cent in absolute value, which is where the delta rounded by
  \<open>delta_profit\<close> exceeds \<open>1e-6\<close>, together with the rounded delta; it reports tubing
  as non-binding exactly when no delta of the range exceeds half a cent; the comparison
  is with zero, never with a first delta; and it stops there: the report depends on
  nothing the solver says beyond that value, nor on how far the range goes on.
\<close>

theorem tubing_scan_half_cent:
  "(q3_more_tubing solver increment = NonBinding \<longleftrightarrow>
      (\<forall>t. 2881 \<le> t \<and> t \<le> 2880 + increment \<longrightarrow>
         \<bar>profit_of_tubing solver 200 1566 t - profit_of_tubing solver 200 1566 (t - 1)\<bar>
           \<le> 1 / 200)) \<and>
   (\<forall>t d. q3_more_tubing solver increment = BecomesBinding t d \<longleftrightarrow>
      2881 \<le> t \<and> t \<le> 2880 + increment \<and>
      d = round2 (profit_of_tubing solver 200 1566 t - profit_of_tubing solver 200 1566 (t - 1)) \<and>
      1 / 200 < \<bar>profit_of_tubing solver 200 1566 t - profit_of_tubing solver 200 1566 (t - 1)\<bar> \<and>
      (\<forall>u. 2881 \<le> u \<and> u < t \<longrightarrow>
         \<bar>profit_of_tubing solver 200 1566 u - profit_of_tubing solver 200 1566 (u - 1)\<bar>
           \<le> 1 / 200)) \<and>
   (\<forall>t d. q3_more_tubing solver increment = BecomesBinding t d \<longrightarrow> tolerance < \<bar>d\<bar>) \<and>
   (\<forall>t d solver' increment'.
      q3_more_tubing solver increment = BecomesBinding t d \<and> t \<le> 2880 + increment' \<and>
      (\<forall>u. 2880 \<le> u \<and> u \<le> t \<longrightarrow>
         profit_of_tubing solver' 200 1566 u = profit_of_tubing solver 200 1566 u)
      \<longrightarrow> q3_more_tubing solver' increment' = BecomesBinding t d)"
proof -
  let ?raw = "\<lambda>s t. profit_of_tubing s 200 1566 t - profit_of_tubing s 200 1566 (t - 1)"
  have none: "q3_more_tubing s n = NonBinding \<longleftrightarrow>
      (\<forall>t. 2881 \<le> t \<and> t \<le> 2880 + n \<longrightarrow> \<bar>?raw s t\<bar> \<le> 1 / 200)" for s n
  proof -
    have "q3_more_tubing s n = NonBinding \<longleftrightarrow>
        find (\<lambda>t. 1 / 200 < \<bar>?raw s t\<bar>) [2881..2880 + n] = None"
      unfolding q3_report_raw by (simp split: option.split)
    then show ?thesis unfolding find_upto_None by (simp add: not_less)
  qed
  have some: "q3_more_tubing s n = BecomesBinding t d \<longleftrightarrow>
      2881 \<le> t \<and> t \<le> 2880 + n \<and> d = round2 (?raw s t) \<and> 1 / 200 < \<bar>?raw s t\<bar> \<and>
      (\<forall>u. 2881 \<le> u \<and> u < t \<longrightarrow> \<bar>?raw s u\<bar> \<le> 1 / 200)" for s n t d
  proof (cases "find (\<lambda>t. 1 / 200 < \<bar>?raw s t\<bar>) [2881..2880 + n]")
    case None
    then have "\<not> 1 / 200 < \<bar>?raw s t\<bar>" if "2881 \<le> t" "t \<le> 2880 + n" for t
      using that unfolding find_upto_None by blast
    moreover from None have "q3_more_tubing s n = NonBinding"
      unfolding q3_report_raw by simp
    ultimately show ?thesis by auto
  next
    case (Some b)
    then have b: "2881 \<le> b" "b \<le> 2880 + n" "1 / 200 < \<bar>?raw s b\<bar>"
      "\<And>u. 2881 \<le> u \<Longrightarrow> u < b \<Longrightarrow> \<not> 1 / 200 < \<bar>?raw s u\<bar>"
      unfolding find_upto_Some by blast+
    have uniq: "t = b" if "2881 \<le> t" "1 / 200 < \<bar>?raw s t\<bar>"
      "\<forall>u. 2881 \<le> u \<and> u < t \<longrightarrow> \<bar>?raw s u\<bar> \<le> 1 / 200" for t
    proof (rule ccontr)
      assume "t \<noteq> b"
      then consider "t < b" | "b < t" by linarith
      then show False
      proof cases
        case 1
        with b(4) that(1,2) show False by blast
      next
        case 2
        with that(3) b(1) have "\<bar>?raw s b\<bar> \<le> 1 / 200" by blast
        with b(3) show False by linarith
      qed
    qed
    have q: "q3_more_tubing s n = BecomesBinding b (round2 (?raw s b))"
      unfolding q3_report_raw using Some by simp
    show ?thesis
    proof
      assume "q3_more_tubing s n = BecomesBinding t d"
      with q have e: "t = b" "d = round2 (?raw s b)" by simp_all
      have "\<bar>?raw s u\<bar> \<le> 1 / 200" if "2881 \<le> u" "u < b" for u
        using b(4) [OF that] by linarith
      with e b(1-3) show "2881 \<le> t \<and> t \<le> 2880 + n \<and> d = round2 (?raw s t) \<and>
        1 / 200 < \<bar>?raw s t\<bar> \<and>
        (\<forall>u. 2881 \<le> u \<and> u < t \<longrightarrow> \<bar>?raw s u\<bar> \<le> 1 / 200)" by blast
    next
      assume r: "2881 \<le> t \<and> t \<le> 2880 + n \<and> d = round2 (?raw s t) \<and>
        1 / 200 < \<bar>?raw s t\<bar> \<and>
        (\<forall>u. 2881 \<le> u \<and> u < t \<longrightarrow> \<bar>?raw s u\<bar> \<le> 1 / 200)"
      then have "t = b" using uniq [of t] by blast
      with r q show "q3_more_tubing s n = BecomesBinding t d" by simp
    qed
  qed
  have above: "tolerance < \<bar>d\<bar>" if "q3_more_tubing solver increment = BecomesBinding t d" for t d
  proof -
    from that have "d = round2 (?raw solver t)" "1 / 200 < \<bar>?raw solver t\<bar>"
      unfolding some by blast+
    then show ?thesis using tolerance_round2 [of "?raw solver t"] by simp
  qed
  have stop: "q3_more_tubing solver' increment' = BecomesBinding t d"
    if "q3_more_tubing solver increment = BecomesBinding t d" "t \<le> 2880 + increment'"
      "\<forall>u. 2880 \<le> u \<and> u \<le> t \<longrightarrow>
         profit_of_tubing solver' 200 1566 u = profit_of_tubing solver 200 1566 u"
    for t d solver' increment'
  proof -
    from that(1) have t: "2881 \<le> t" "d = round2 (?raw solver t)" "1 / 200 < \<bar>?raw solver t\<bar>"
      "\<forall>u. 2881 \<le> u \<and> u < t \<longrightarrow> \<bar>?raw solver u\<bar> \<le> 1 / 200"
      unfolding some by blast+
    have eq: "?raw solver' u = ?raw solver u" if "2881 \<le> u" "u \<le> t" for u
      using that \<open>\<forall>u. 2880 \<le> u \<and> u \<le> t \<longrightarrow> _\<close> by simp
    have "d = round2 (?raw solver' t)" "1 / 200 < \<bar>?raw solver' t\<bar>"
      using t(1-3) eq [of t] by simp_all
    moreover have "\<forall>u. 2881 \<le> u \<and> u < t \<longrightarrow> \<bar>?raw solver' u\<bar> \<le> 1 / 200"
      using t(4) eq by simp
    ultimately show ?thesis unfolding some using t(1) that(2) by blast
  qed
  from none some above stop show ?thesis by blast
qed

theorem tubing_scan_half_cent_witness:
  "q3_more_tubing pump_sweep_optimum 50 = NonBinding \<and>
   q3_more_tubing tubing_jump 50 = BecomesBinding 2883 1 \<and>
   q3_more_tubing tubing_jump 3 = BecomesBinding 2883 1"
proof -
  have "\<forall>t. 2881 \<le> t \<and> t \<le> 2880 + 50 \<longrightarrow>
      \<bar>profit_of_tubing pump_sweep_optimum 200 1566 t
       - profit_of_tubing pump_sweep_optimum 200 1566 (t - 1)\<bar> \<le> 1 / 200"
    by (simp add: pump_sweep_profit_of_tubing)
  with tubing_scan_half_cent [of pump_sweep_optimum 50]
  have a: "q3_more_tubing pump_sweep_optimum 50 = NonBinding" by blast
  have r1: "round2 (profit_of_tubing tubing_jump 200 1566 2883
                   - profit_of_tubing tubing_jump 200 1566 (2883 - 1)) = 1"
    using round2_of_int [of 1] by (simp add: tubing_jump_tubing)
  have r2: "1 / 200 < \<bar>profit_of_tubing tubing_jump 200 1566 2883
                   - profit_of_tubing tubing_jump 200 1566 (2883 - 1)\<bar>"
    by (simp add: tubing_jump_tubing)
  have r3: "\<forall>u. 2881 \<le> u \<and> u < 2883 \<longrightarrow>
      \<bar>profit_of_tubing tubing_jump 200 1566 u
       - profit_of_tubing tubing_jump 200 1566 (u - 1)\<bar> \<le> 1 / 200"
    by (simp add: tubing_jump_tubing)
  note found = tubing_scan_half_cent [of tubing_jump 50, THEN conjunct2, THEN conjunct1,
      THEN spec, THEN spec, of 2883 1]
  have b: "q3_more_tubing tubing_jump 50 = BecomesBinding 2883 1"
    unfolding found using r1 r2 r3 by simp
  note early = tubing_scan_half_cent [of tubing_jump 50, THEN conjunct2, THEN conjunct2,
      THEN conjunct2, THEN spec, THEN spec, THEN spec, THEN spec, of 2883 1 3 tubing_jump]
  have "q3_more_tubing tubing_jump 3 = BecomesBinding 2883 1"
    by (rule early [THEN mp]) (simp add: b)
  with a b show ?thesis by simp
qed

end
